theory Spec2Isabelle
  imports Complex_Main "HOL-Library.Char_ord" "HOL-Library.List_Lexorder"
begin

section \<open>The queried-entity controller of restredux\<close>

text \<open>
  A shallow embedding of \<^verbatim>\<open>src/queriedEntity/queriedEntity.js\<close>: the class that the
  higher-order component wraps around a view. The component state, the slice of the
  redux store it receives as props and the clock are explicit arguments; every call
  of a prop (\<^verbatim>\<open>freeze\<close>, \<^verbatim>\<open>unfreeze\<close>, the dispatched actions) and of the registered
  predictor is an entry of the effect trace a function returns, in the order the
  source makes the calls. A promise chain is modelled by the function that starts it
  and a second one that runs its handlers once the outcome of the store's promise is
  known.

  Conventions of the model:
  \<^item> React applies a \<^verbatim>\<open>setState\<close> at once, or batches it until the running handler has
    returned; which of the two is a parameter (\<open>batched\<close>). When batched, a read of
    \<^verbatim>\<open>this.state\<close> sees none of the updates of the running call. The state a function
    returns is the one with all its updates applied;
  \<^item> the hooks, the dispatched actions and the predictor return normally;
  \<^item> a cache record is an object, hence truthy; the \<^verbatim>\<open>LOADING\<close> sentinel of the helpers
    module is a truthy primitive different from every record;
  \<^item> \<^verbatim>\<open>preloadedAt\<close> is absent or a number of milliseconds, which is falsy when it is 0;
  \<^item> the \<^verbatim>\<open>networkTimer\<close> entry of the bucket is kept apart from the cache keys;
  \<^item> times are integers of milliseconds; the average of the network timer and its
    threshold are compared as the real numbers they denote.
\<close>

subsection \<open>JavaScript objects\<close>

datatype jsval = JNull | JBool bool | JNum int | JStr string

text \<open>
  An object is the list of its own properties in insertion order. Keys that are array
  indices, which JavaScript enumerates first, are not treated apart.
\<close>

type_synonym object = "(string \<times> jsval) list"

definition wf_object :: "object \<Rightarrow> bool" where
  "wf_object obj = distinct (map fst obj)"

text \<open>\<^verbatim>\<open>obj[k] = v\<close>: an existing property keeps its place, a new one goes last.\<close>

fun assign :: "string \<Rightarrow> jsval \<Rightarrow> object \<Rightarrow> object" where
  "assign k v [] = [(k, v)]"
| "assign k v ((k', v') # rest) =
     (if k' = k then (k, v) # rest else (k', v') # assign k v rest)"

text \<open>
  Spreading \<^verbatim>\<open>...src\<close> into an object literal whose properties so far are \<open>target\<close>.
\<close>

fun spread :: "object \<Rightarrow> object \<Rightarrow> object" where
  "spread target [] = target"
| "spread target ((k, v) # rest) = spread (assign k v target) rest"

text \<open>\<^verbatim>\<open>{...a}\<close> and \<^verbatim>\<open>{...a, ...b}\<close>.\<close>

definition copy :: "object \<Rightarrow> object" where
  "copy a = spread [] a"

definition merge :: "object \<Rightarrow> object \<Rightarrow> object" where
  "merge a b = spread (spread [] a) b"

text \<open>\<^verbatim>\<open>!s\<close> for a value that is a string or \<^verbatim>\<open>undefined\<close>.\<close>

fun falsy :: "string option \<Rightarrow> bool" where
  "falsy None = True"
| "falsy (Some s) = (s = [])"

subsection \<open>Store, configuration and component state\<close>

record cache_record =
  preloadedAt :: "int option"
  props_rest :: object

datatype cache_value = LOADING | Record cache_record

record network_timer =
  average :: real
  numberOfCalls :: nat

text \<open>\<^verbatim>\<open>this.props[PL(entityName)]\<close>: the records by cache key, and the network timer.\<close>

record props =
  entries :: "string \<Rightarrow> cache_value option"
  networkTimer :: network_timer

text \<open>The arguments of the exported function; the defaults are those of the source.\<close>

record config =
  entityName :: string
  resultField :: "string option"
  hideLoadIfDataFound :: bool
  retain_number :: nat
  preloadValidTime :: int
  smartPreload :: bool
  smartThresholdTime :: real

definition RETAIN_NUMBER :: nat where "RETAIN_NUMBER = 10"
definition PRELOAD_VALID_TIME :: int where "PRELOAD_VALID_TIME = 10000"
definition SMART_THRESHOLD_TIME :: real where "SMART_THRESHOLD_TIME = 300"
definition RESULT_FIELD :: string where "RESULT_FIELD = ''content''"

definition default_config :: "string \<Rightarrow> config" where
  "default_config name =
     \<lparr>entityName = name, resultField = Some RESULT_FIELD, hideLoadIfDataFound = True,
      retain_number = RETAIN_NUMBER, preloadValidTime = PRELOAD_VALID_TIME,
      smartPreload = False, smartThresholdTime = SMART_THRESHOLD_TIME\<rparr>"

text \<open>
  What the source imports. From the helpers module, which is not among the sources:
  the key encoder, and the own enumerable properties of the \<^verbatim>\<open>LOADING\<close> sentinel
  (what spreading it into an object literal copies). From React: whether the updates
  of the running call are batched (inside an event handler or a lifecycle method) or
  applied at once (in a promise callback or a timer, before React 18). All three are
  parameters.
\<close>

record environment =
  encodeAPICall :: "string option \<Rightarrow> object \<Rightarrow> string"
  LOADING_props :: object
  batched :: bool

type_synonym predictor = "object \<Rightarrow> object \<Rightarrow> cache_record \<Rightarrow> object list"

text \<open>\<^verbatim>\<open>this.state\<close> and the instance field \<^verbatim>\<open>preLoaderFunc\<close>.\<close>

record component =
  state_url :: "string option"
  state_params :: object
  state_loadingData :: bool
  preLoaderFunc :: "predictor option"

definition initial_component :: component where
  "initial_component =
     \<lparr>state_url = None, state_params = [], state_loadingData = False,
      preLoaderFunc = None\<rparr>"

subsection \<open>Effects, errors and promises\<close>

datatype entity = EntityId string | EntityObject object

datatype effect =
    Freeze
  | Unfreeze
  | Predict object object cache_record
  | QueryEntities string "string option" object bool bool bool
  | CreateEntity string entity "string option"
  | UpdateEntity string entity "string option" "string option"
  | PatchEntity string entity "string option" "string option"
  | DeleteEntity string entity "string option" "string option"
  | PushToQueue string string nat

datatype error = SetupError string

datatype settled = Fulfilled | Rejected

text \<open>
  What \<^verbatim>\<open>query\<close> returns: \<^verbatim>\<open>Promise.resolve()\<close>, or the chain on the store's promise,
  whose handlers have captured \<^verbatim>\<open>url\<close>, \<^verbatim>\<open>newParams\<close> and \<^verbatim>\<open>oldParams\<close>.
\<close>

datatype query_promise = Resolved | Fetching "string option" object object

text \<open>What a mutation does: it throws, or returns the chain on the store's promise.\<close>

datatype mutation_result = Threw error | Dispatched

fun is_fetch :: "effect \<Rightarrow> bool" where
  "is_fetch (QueryEntities n u p m pre s) = True"
| "is_fetch e = False"

fun is_direct_fetch :: "effect \<Rightarrow> bool" where
  "is_direct_fetch (QueryEntities n u p m pre s) = (\<not> pre)"
| "is_direct_fetch e = False"

fun marks_loading :: "effect \<Rightarrow> bool" where
  "marks_loading (QueryEntities n u p m pre s) = m"
| "marks_loading e = False"

fun fetch_key :: "environment \<Rightarrow> effect \<Rightarrow> string option" where
  "fetch_key h (QueryEntities n u p m pre s) = Some (encodeAPICall h u p)"
| "fetch_key h e = None"

subsection \<open>The freshness check\<close>

text \<open>\<^verbatim>\<open>shouldLoad\<close>; \<open>now\<close> is \<^verbatim>\<open>new Date()\<close> in milliseconds.\<close>

fun shouldLoad :: "config \<Rightarrow> int \<Rightarrow> cache_value option \<Rightarrow> bool" where
  "shouldLoad cfg now None = True"
| "shouldLoad cfg now (Some LOADING) = False"
| "shouldLoad cfg now (Some (Record r)) =
     (case preloadedAt r of
        None \<Rightarrow> True
      | Some t0 \<Rightarrow> if t0 \<noteq> 0 \<and> now - t0 < preloadValidTime cfg then False else True)"

subsection \<open>Preloading\<close>

definition collectGarbage :: "environment \<Rightarrow> config \<Rightarrow> string option \<Rightarrow> object \<Rightarrow> effect list" where
  "collectGarbage h cfg url params =
     [PushToQueue (entityName cfg) (encodeAPICall h url params) (retain_number cfg)]"

text \<open>\<^verbatim>\<open>this.props[...][key] || {}\<close>, as the properties a spread of it copies.\<close>

fun queryData :: "environment \<Rightarrow> cache_value option \<Rightarrow> cache_record" where
  "queryData h None = \<lparr>preloadedAt = None, props_rest = []\<rparr>"
| "queryData h (Some LOADING) = \<lparr>preloadedAt = None, props_rest = LOADING_props h\<rparr>"
| "queryData h (Some (Record r)) = r"

definition delete_prop :: "string \<Rightarrow> cache_record \<Rightarrow> cache_record" where
  "delete_prop k r =
     \<lparr>preloadedAt = (if k = ''preloadedAt'' then None else preloadedAt r),
      props_rest = filter (\<lambda>kv. fst kv \<noteq> k) (props_rest r)\<rparr>"

text \<open>
  \<^verbatim>\<open>queryMetadata\<close> as it is handed on, \<^verbatim>\<open>{...queryMetadata}\<close>: the empty object when
  there is no result field.
\<close>

definition queryMetadata :: "environment \<Rightarrow> config \<Rightarrow> cache_value option \<Rightarrow> cache_record" where
  "queryMetadata h cfg data =
     (if falsy (resultField cfg) then \<lparr>preloadedAt = None, props_rest = []\<rparr>
      else delete_prop (the (resultField cfg)) (queryData h data))"

text \<open>The body of the \<^verbatim>\<open>forEach\<close> of \<^verbatim>\<open>preload\<close>, over the predicted list.\<close>

fun preload_each ::
  "environment \<Rightarrow> config \<Rightarrow> props \<Rightarrow> string option \<Rightarrow> component \<Rightarrow> object list \<Rightarrow> effect list"
where
  "preload_each h cfg pr url c [] = []"
| "preload_each h cfg pr url c (params # rest) =
     (let fullParams = merge (state_params c) params;
          data = entries pr (encodeAPICall h url fullParams)
      in (if data \<noteq> None then []
          else [QueryEntities (entityName cfg) url fullParams (data = None) True
                  (smartPreload cfg)])
         @ preload_each h cfg pr url c rest)"

definition preload ::
  "environment \<Rightarrow> config \<Rightarrow> props \<Rightarrow> object \<Rightarrow> string option \<Rightarrow> component \<Rightarrow> effect list"
where
  "preload h cfg pr params url c =
     (case preLoaderFunc c of
        None \<Rightarrow> []
      | Some f \<Rightarrow>
          if smartPreload cfg \<and> numberOfCalls (networkTimer pr) > 3
             \<and> average (networkTimer pr) > smartThresholdTime cfg
          then []
          else
            let metadata = queryMetadata h cfg (entries pr (encodeAPICall h url params));
                merged = merge (state_params c) params;
                paramsList = f params merged metadata
            in Predict params merged metadata # preload_each h cfg pr url c paramsList)"

text \<open>The handlers of a speculative fetch.\<close>

definition preload_settle ::
  "environment \<Rightarrow> config \<Rightarrow> string option \<Rightarrow> object \<Rightarrow> settled \<Rightarrow> effect list \<times> settled"
where
  "preload_settle h cfg url fullParams outcome =
     (case outcome of
        Fulfilled \<Rightarrow> (collectGarbage h cfg url fullParams, Fulfilled)
      | Rejected \<Rightarrow> ([], Fulfilled))"

subsection \<open>Queries\<close>

text \<open>
  \<^verbatim>\<open>query\<close> up to its \<^verbatim>\<open>return\<close>. An argument that is \<open>None\<close> is \<^verbatim>\<open>undefined\<close> and takes
  the default of the source. \<open>c\<close> is \<^verbatim>\<open>this.state\<close> as the call reads it on entry, \<open>c1\<close> the
  state with the update of line 58 applied; \<^verbatim>\<open>preload\<close>, called after that \<^verbatim>\<open>setState\<close>,
  reads the one or the other.
\<close>

definition query ::
  "environment \<Rightarrow> config \<Rightarrow> props \<Rightarrow> int \<Rightarrow> object option \<Rightarrow> string option \<Rightarrow> bool \<Rightarrow> component
     \<Rightarrow> component \<times> effect list \<times> query_promise"
where
  "query h cfg pr now params_arg url_arg initial c =
     (let params = (case params_arg of None \<Rightarrow> state_params c | Some p \<Rightarrow> p);
          url = (case url_arg of None \<Rightarrow> state_url c | Some u \<Rightarrow> Some u);
          oldParams = (if initial then copy params else copy (state_params c));
          newParams = merge oldParams params;
          c1 = c\<lparr>state_params := newParams, state_loadingData := True\<rparr>;
          data = entries pr (encodeAPICall h url newParams);
          frozen = (if data = None \<or> \<not> hideLoadIfDataFound cfg then [Freeze] else []);
          preloaded = preload h cfg pr params url (if batched h then c else c1)
      in if \<not> shouldLoad cfg now data then (c1, frozen @ preloaded, Resolved)
         else (c1,
               frozen @ preloaded @
                 [QueryEntities (entityName cfg) url newParams (data = None) False
                    (smartPreload cfg)],
               Fetching url newParams oldParams))"

text \<open>The \<^verbatim>\<open>then\<close> and the \<^verbatim>\<open>catch\<close> handler of \<^verbatim>\<open>query\<close>.\<close>

definition query_then ::
  "environment \<Rightarrow> config \<Rightarrow> string option \<Rightarrow> object \<Rightarrow> component \<Rightarrow> component \<times> effect list"
where
  "query_then h cfg url newParams c =
     (c\<lparr>state_loadingData := False\<rparr>, Unfreeze # collectGarbage h cfg url newParams)"

definition query_catch :: "object \<Rightarrow> component \<Rightarrow> component \<times> effect list" where
  "query_catch oldParams c =
     (c\<lparr>state_loadingData := False, state_params := oldParams\<rparr>, [Unfreeze])"

text \<open>
  The promise \<^verbatim>\<open>query\<close> returned, once the store's promise has settled with \<open>outcome\<close>:
  the state, the calls made and how the returned promise settles.
\<close>

fun query_settle ::
  "environment \<Rightarrow> config \<Rightarrow> query_promise \<Rightarrow> settled \<Rightarrow> component
     \<Rightarrow> component \<times> effect list \<times> settled"
where
  "query_settle h cfg Resolved outcome c = (c, [], Fulfilled)"
| "query_settle h cfg (Fetching url newParams oldParams) Fulfilled c =
     (let (c', evs) = query_then h cfg url newParams c in (c', evs, Fulfilled))"
| "query_settle h cfg (Fetching url newParams oldParams) Rejected c =
     (let (c', evs) = query_catch oldParams c in (c', evs, Fulfilled))"

text \<open>
  \<^verbatim>\<open>initialQuery\<close>: the update of the url is queued before \<^verbatim>\<open>query\<close> runs, which reads
  the state with it or, when batched, without it; it is part of the state returned.
\<close>

definition initialQuery ::
  "environment \<Rightarrow> config \<Rightarrow> props \<Rightarrow> int \<Rightarrow> string option \<Rightarrow> object option \<Rightarrow> component
     \<Rightarrow> component \<times> effect list \<times> query_promise"
where
  "initialQuery h cfg pr now url params_arg c =
     (let params = (case params_arg of None \<Rightarrow> [] | Some p \<Rightarrow> p);
          c0 = c\<lparr>state_url := url\<rparr>;
          (c1, evs, promise) =
            query h cfg pr now (Some params) url True (if batched h then c else c0)
      in (c1\<lparr>state_url := url\<rparr>, evs, promise))"

definition setPreLoader :: "predictor option \<Rightarrow> component \<Rightarrow> component" where
  "setPreLoader f c = c\<lparr>preLoaderFunc := f\<rparr>"

subsection \<open>Mutations\<close>

definition checkSetup :: "config \<Rightarrow> component \<Rightarrow> error option" where
  "checkSetup cfg c =
     (if falsy (state_url c) then Some (SetupError (entityName cfg)) else None)"

definition create :: "config \<Rightarrow> entity \<Rightarrow> component \<Rightarrow> effect list \<times> mutation_result" where
  "create cfg ent c =
     (case checkSetup cfg c of
        Some err \<Rightarrow> ([], Threw err)
      | None \<Rightarrow> ([Freeze, CreateEntity (entityName cfg) ent (state_url c)], Dispatched))"

definition update :: "config \<Rightarrow> entity \<Rightarrow> component \<Rightarrow> effect list \<times> mutation_result" where
  "update cfg ent c =
     (case checkSetup cfg c of
        Some err \<Rightarrow> ([], Threw err)
      | None \<Rightarrow>
          ([Freeze, UpdateEntity (entityName cfg) ent (state_url c) (resultField cfg)],
           Dispatched))"

definition patch :: "config \<Rightarrow> entity \<Rightarrow> component \<Rightarrow> effect list \<times> mutation_result" where
  "patch cfg flds c =
     (case checkSetup cfg c of
        Some err \<Rightarrow> ([], Threw err)
      | None \<Rightarrow>
          ([Freeze, PatchEntity (entityName cfg) flds (state_url c) (resultField cfg)],
           Dispatched))"

definition delete :: "config \<Rightarrow> entity \<Rightarrow> component \<Rightarrow> effect list \<times> mutation_result" where
  "delete cfg ent c =
     (case checkSetup cfg c of
        Some err \<Rightarrow> ([], Threw err)
      | None \<Rightarrow>
          (let ent' = (case ent of EntityId s \<Rightarrow> EntityObject [(''id'', JStr s)]
                                 | EntityObject obj \<Rightarrow> EntityObject obj)
           in ([Freeze, DeleteEntity (entityName cfg) ent' (state_url c) (resultField cfg)],
               Dispatched)))"

text \<open>
  The \<^verbatim>\<open>then\<close> handler the four mutations attach, \<^verbatim>\<open>() => {unfreeze(); query();}\<close>.
  The promise of the inner \<^verbatim>\<open>query\<close> is dropped.
\<close>

definition mutation_then ::
  "environment \<Rightarrow> config \<Rightarrow> props \<Rightarrow> int \<Rightarrow> component \<Rightarrow> component \<times> effect list \<times> query_promise"
where
  "mutation_then h cfg pr now c =
     (let (c', evs, p) = query h cfg pr now None None False c
      in (c', Unfreeze # evs, p))"

text \<open>
  The promise a mutation returned, once the store's promise has settled: there is no
  rejection handler, so a rejection passes through.
\<close>

fun mutation_settle ::
  "environment \<Rightarrow> config \<Rightarrow> props \<Rightarrow> int \<Rightarrow> settled \<Rightarrow> component
     \<Rightarrow> component \<times> effect list \<times> settled"
where
  "mutation_settle h cfg pr now Fulfilled c =
     (let (c', evs, p) = mutation_then h cfg pr now c in (c', evs, Fulfilled))"
| "mutation_settle h cfg pr now Rejected c = (c, [], Rejected)"

subsection \<open>The order of a mutation as the specification words it\<close>

text \<open>
  The specification has a mutation invoke \<^verbatim>\<open>freeze\<close>, call the store, then re-issue
  \<^verbatim>\<open>query()\<close> with the active params, then invoke \<^verbatim>\<open>unfreeze\<close>. This is the \<^verbatim>\<open>then\<close> handler
  in that order, to be compared with \<open>mutation_then\<close>.
\<close>

definition mutation_then_spec ::
  "environment \<Rightarrow> config \<Rightarrow> props \<Rightarrow> int \<Rightarrow> component \<Rightarrow> component \<times> effect list \<times> query_promise"
where
  "mutation_then_spec h cfg pr now c =
     (let (c', evs, p) = query h cfg pr now None None False c
      in (c', evs @ [Unfreeze], p))"

subsection \<open>Parts of the repository outside the sources\<close>

text \<open>
  Modelled from the spec: the key encoder \<^verbatim>\<open>encodeAPICall\<close> of the helpers module, which
  is not among the sources. The spec has it sort the parameter keys lexicographically
  and concatenate \<^verbatim>\<open>key=value\<close> pairs, joined by a delimiter and prefixed by the url.
\<close>

function show_nat :: "nat \<Rightarrow> string" where
  "show_nat n =
     (if n < 10 then [''0123456789'' ! n]
      else show_nat (n div 10) @ [''0123456789'' ! (n mod 10)])"
  by pat_completeness auto
termination
  by (relation "measure id") auto

fun show_jsval :: "jsval \<Rightarrow> string" where
  "show_jsval JNull = ''null''"
| "show_jsval (JBool b) = (if b then ''true'' else ''false'')"
| "show_jsval (JNum i) = (if i < 0 then ''-'' @ show_nat (nat (- i)) else show_nat (nat i))"
| "show_jsval (JStr s) = s"

fun join :: "string \<Rightarrow> string list \<Rightarrow> string" where
  "join d [] = []"
| "join d [s] = s"
| "join d (s # t # rest) = s @ d @ join d (t # rest)"

definition show_pair :: "object \<Rightarrow> string \<Rightarrow> string" where
  "show_pair params k =
     k @ ''='' @ (case map_of params k of None \<Rightarrow> ''undefined'' | Some v \<Rightarrow> show_jsval v)"

definition encode :: "string option \<Rightarrow> object \<Rightarrow> string" where
  "encode url params =
     (case url of None \<Rightarrow> ''undefined'' | Some u \<Rightarrow> u) @ ''?''
     @ join ''&'' (map (show_pair params) (sort (map fst params)))"

text \<open>
  Modelled from the spec: what the dispatch of \<^verbatim>\<open>queryEntities\<close> (module
  \<^verbatim>\<open>queriedEntityActions\<close>, not among the sources) does to the bucket before the network
  call returns. The spec: if \<^verbatim>\<open>markLoading\<close>, it immediately writes a \<^verbatim>\<open>LOADING\<close> sentinel
  record at the derived key.
\<close>

fun dispatched :: "environment \<Rightarrow> props \<Rightarrow> effect \<Rightarrow> props" where
  "dispatched h pr (QueryEntities n u p m pre s) =
     (if m then pr\<lparr>entries := (entries pr)(encodeAPICall h u p := Some LOADING)\<rparr> else pr)"
| "dispatched h pr e = pr"

definition store_after :: "environment \<Rightarrow> props \<Rightarrow> effect list \<Rightarrow> props" where
  "store_after h pr evs = foldl (dispatched h) pr evs"

subsection \<open>A concrete setting\<close>

text \<open>
  The entity \<^verbatim>\<open>user\<close> at \<^verbatim>\<open>/users\<close>, paged; the theorems below are run on it.
\<close>

definition users_env :: environment where
  "users_env = \<lparr>encodeAPICall = encode, LOADING_props = [], batched = False\<rparr>"

definition users_url :: "string option" where
  "users_url = Some ''/users''"

definition page :: "int \<Rightarrow> object" where
  "page n = [(''page'', JNum n)]"

definition smart_config :: config where
  "smart_config = (default_config ''user'')\<lparr>smartPreload := True\<rparr>"

text \<open>A predictor that proposes the next two pages.\<close>

definition next_pages :: predictor where
  "next_pages params merged metadata = [page 2, page 3]"

definition fetched_record :: cache_value where
  "fetched_record = Record \<lparr>preloadedAt = None, props_rest = [(''data'', JStr ''...'')]\<rparr>"

definition preloaded_record :: "int \<Rightarrow> cache_value" where
  "preloaded_record t0 =
     Record \<lparr>preloadedAt = Some t0, props_rest = [(''data'', JStr ''...'')]\<rparr>"

definition bucket :: "(string \<times> cache_value) list \<Rightarrow> real \<Rightarrow> nat \<Rightarrow> props" where
  "bucket records avg calls =
     \<lparr>entries = map_of records,
      networkTimer = \<lparr>average = avg, numberOfCalls = calls\<rparr>\<rparr>"

definition viewing :: "string option \<Rightarrow> object \<Rightarrow> predictor option \<Rightarrow> component" where
  "viewing url params f =
     \<lparr>state_url = url, state_params = params, state_loadingData = False,
      preLoaderFunc = f\<rparr>"

section \<open>Properties\<close>

subsection \<open>Object literals\<close>

lemma map_of_assign: "map_of (assign k v xs) = (map_of xs)(k \<mapsto> v)"
  by (induction xs) (auto simp: fun_eq_iff)

lemma keys_assign: "fst ` set (assign k v xs) = insert k (fst ` set xs)"
  by (induction xs) force+

lemma wf_assign: "wf_object xs \<Longrightarrow> wf_object (assign k v xs)"
  unfolding wf_object_def
proof (induction xs)
  case Nil
  then show ?case by simp
next
  case (Cons a xs)
  obtain k' v' where a: "a = (k', v')" by (cases a)
  have "fst ` set (assign k v xs) = insert k (fst ` set xs)" by (rule keys_assign)
  with Cons a show ?case by auto
qed

lemma assign_fresh: "k \<notin> fst ` set xs \<Longrightarrow> assign k v xs = xs @ [(k, v)]"
  by (induction xs) auto

lemma assign_same: "(k, v) \<in> set xs \<Longrightarrow> distinct (map fst xs) \<Longrightarrow> assign k v xs = xs"
  by (induction xs) (auto simp: rev_image_eqI)

lemma spread_append: "distinct (map fst (t @ s)) \<Longrightarrow> spread t s = t @ s"
proof (induction s arbitrary: t)
  case Nil
  then show ?case by simp
next
  case (Cons a s)
  obtain k v where a: "a = (k, v)" by (cases a)
  from Cons.prems a have fresh: "k \<notin> fst ` set t" by auto
  from Cons.prems a have "distinct (map fst ((t @ [(k, v)]) @ s))" by auto
  from Cons.IH [OF this] fresh a show ?case by (simp add: assign_fresh)
qed

lemma copy_wf: "wf_object a \<Longrightarrow> copy a = a"
  using spread_append [of "[]" a] by (simp add: copy_def wf_object_def)

lemma wf_spread: "wf_object t \<Longrightarrow> wf_object (spread t s)"
  by (induction t s rule: spread.induct) (auto simp: wf_assign)

lemma spread_subset: "wf_object t \<Longrightarrow> set s \<subseteq> set t \<Longrightarrow> spread t s = t"
  by (induction s) (auto simp: assign_same wf_object_def)

lemma merge_self: "wf_object a \<Longrightarrow> merge a a = a"
  by (simp add: merge_def copy_wf [unfolded copy_def] spread_subset)

lemma map_of_spread: "wf_object s \<Longrightarrow> map_of (spread t s) = map_of t ++ map_of s"
proof (induction s arbitrary: t)
  case Nil
  then show ?case by simp
next
  case (Cons a s)
  obtain k v where a: "a = (k, v)" by (cases a)
  from Cons.prems a have k: "k \<notin> fst ` set s" and wf: "wf_object s"
    by (auto simp: wf_object_def)
  from k have "k \<notin> dom (map_of s)" by (simp add: dom_map_of_conv_image_fst)
  then have "(map_of t)(k \<mapsto> v) ++ map_of s = (map_of t ++ map_of s)(k \<mapsto> v)"
    by (rule map_add_upd_left)
  with Cons.IH [OF wf, of "assign k v t"] a show ?case
    by (simp only: spread.simps map_of_assign map_of.simps map_add_upd fst_conv snd_conv)
qed

lemma map_of_merge:
  "wf_object a \<Longrightarrow> wf_object b \<Longrightarrow> map_of (merge a b) = map_of a ++ map_of b"
  by (simp add: merge_def copy_wf [unfolded copy_def] map_of_spread)

lemma wf_merge: "wf_object (merge a b)"
proof -
  have "wf_object []" by (simp add: wf_object_def)
  then show ?thesis unfolding merge_def by (intro wf_spread)
qed

subsection \<open>The freshness check\<close>

text \<open>
  C1. \<^verbatim>\<open>shouldLoad\<close> returns true when there is no record, false when the record is the
  \<^verbatim>\<open>LOADING\<close> sentinel, false when the record has a \<^verbatim>\<open>preloadedAt\<close> time \<open>t0\<close> and the
  current time has \<open>now - t0 < preloadValidTime\<close>, and true in every other case. This
  fails on the code for the time 0: line 83 tests \<^verbatim>\<open>data.preloadedAt\<close> for truthiness
  first, so a record preloaded at 0 is fetched again although \<open>5000 - 0\<close> is inside
  the window.
\<close>

theorem shouldLoad_at_time_zero:
  "preloadedAt \<lparr>preloadedAt = Some 0, props_rest = []\<rparr> = Some 0
   \<and> 5000 - 0 < preloadValidTime (default_config ''user'')
   \<and> shouldLoad (default_config ''user'') 5000
        (Some (Record \<lparr>preloadedAt = Some 0, props_rest = []\<rparr>)) = True"
  by (simp add: default_config_def PRELOAD_VALID_TIME_def)

text \<open>
  C1, amended. \<^verbatim>\<open>shouldLoad\<close> returns true when there is no record for the key, false
  when the record is the \<^verbatim>\<open>LOADING\<close> sentinel, false when the record has a truthy
  (nonzero) \<^verbatim>\<open>preloadedAt\<close> time \<open>t0\<close> and the current time \<open>now\<close> has
  \<open>now - t0 < preloadValidTime\<close>, and true in every other case: when
  \<open>now - t0 \<ge> preloadValidTime\<close>, when the record has no \<^verbatim>\<open>preloadedAt\<close>, and when its
  \<^verbatim>\<open>preloadedAt\<close> is 0.
\<close>

theorem shouldLoad_cases:
  "shouldLoad cfg now None = True
   \<and> shouldLoad cfg now (Some LOADING) = False
   \<and> (preloadedAt r = Some t0 \<and> t0 \<noteq> 0 \<and> now - t0 < preloadValidTime cfg
        \<longrightarrow> shouldLoad cfg now (Some (Record r)) = False)
   \<and> (preloadedAt r = Some t0 \<and> now - t0 \<ge> preloadValidTime cfg
        \<longrightarrow> shouldLoad cfg now (Some (Record r)) = True)
   \<and> (preloadedAt r = None \<longrightarrow> shouldLoad cfg now (Some (Record r)) = True)
   \<and> (preloadedAt r = Some 0 \<longrightarrow> shouldLoad cfg now (Some (Record r)) = True)"
  by simp

theorem shouldLoad_cases_witness:
  "(preloadedAt \<lparr>preloadedAt = Some 5000, props_rest = []\<rparr> = Some 5000
      \<and> (5000 :: int) \<noteq> 0
      \<and> 14999 - 5000 < preloadValidTime (default_config ''user'')
      \<and> shouldLoad (default_config ''user'') 14999
          (Some (Record \<lparr>preloadedAt = Some 5000, props_rest = []\<rparr>)) = False)
   \<and> (15000 - 5000 \<ge> preloadValidTime (default_config ''user'')
      \<and> shouldLoad (default_config ''user'') 15000
          (Some (Record \<lparr>preloadedAt = Some 5000, props_rest = []\<rparr>)) = True)
   \<and> (preloadedAt \<lparr>preloadedAt = None, props_rest = []\<rparr> = None
      \<and> shouldLoad (default_config ''user'') 15000
          (Some (Record \<lparr>preloadedAt = None, props_rest = []\<rparr>)) = True)
   \<and> (preloadedAt \<lparr>preloadedAt = Some 0, props_rest = []\<rparr> = Some 0
      \<and> shouldLoad (default_config ''user'') 15
          (Some (Record \<lparr>preloadedAt = Some 0, props_rest = []\<rparr>)) = True)"
proof -
  let ?cfg = "default_config ''user''"
  let ?r = "\<lparr>preloadedAt = Some 5000, props_rest = []\<rparr>"
  let ?bare = "\<lparr>preloadedAt = None, props_rest = []\<rparr>"
  let ?zero = "\<lparr>preloadedAt = Some 0, props_rest = []\<rparr>"
  have fresh: "preloadedAt ?r = Some 5000 \<and> (5000 :: int) \<noteq> 0
      \<and> 14999 - 5000 < preloadValidTime ?cfg"
    by (simp add: default_config_def PRELOAD_VALID_TIME_def)
  have expired: "preloadedAt ?r = Some 5000 \<and> 15000 - 5000 \<ge> preloadValidTime ?cfg"
    by (simp add: default_config_def PRELOAD_VALID_TIME_def)
  have none: "preloadedAt ?bare = None" by simp
  have zero: "preloadedAt ?zero = Some 0" by simp
  from fresh shouldLoad_cases [of ?cfg 14999 ?r 5000]
  have 1: "shouldLoad ?cfg 14999 (Some (Record ?r)) = False" by blast
  from expired shouldLoad_cases [of ?cfg 15000 ?r 5000]
  have 2: "shouldLoad ?cfg 15000 (Some (Record ?r)) = True" by blast
  from none shouldLoad_cases [of ?cfg 15000 ?bare]
  have 3: "shouldLoad ?cfg 15000 (Some (Record ?bare)) = True" by blast
  from zero shouldLoad_cases [of ?cfg 15 ?zero]
  have 4: "shouldLoad ?cfg 15 (Some (Record ?zero)) = True" by blast
  from fresh expired none zero 1 2 3 4 show ?thesis by blast
qed

subsection \<open>Preloading\<close>

lemmas users_defs = users_env_def users_url_def page_def smart_config_def next_pages_def
  fetched_record_def preloaded_record_def bucket_def viewing_def default_config_def
  RETAIN_NUMBER_def PRELOAD_VALID_TIME_def SMART_THRESHOLD_TIME_def RESULT_FIELD_def

lemmas eval_defs = preload_def queryMetadata_def delete_prop_def merge_def copy_def encode_def
  show_pair_def

lemma preload_each_eq:
  "preload_each h cfg pr url c ps =
     map (\<lambda>p. QueryEntities (entityName cfg) url (merge (state_params c) p) True True
                 (smartPreload cfg))
       (filter (\<lambda>p. entries pr (encodeAPICall h url (merge (state_params c) p)) = None) ps)"
  by (induction ps) (auto simp: Let_def)

lemma preload_each_no_direct: "filter is_direct_fetch (preload_each h cfg pr url c ps) = []"
  by (simp add: preload_each_eq filter_map comp_def)

lemma preload_no_direct: "filter is_direct_fetch (preload h cfg pr params url c) = []"
  by (simp add: preload_def preload_each_no_direct Let_def split: option.splits)

lemma preload_each_unrecorded:
  "e \<in> set (preload_each h cfg pr url c ps) \<Longrightarrow>
     marks_loading e \<and> is_fetch e \<and>
     (\<exists>k. fetch_key h e = Some k \<and> entries pr k = None)"
  by (auto simp: preload_each_eq)

lemma preload_unrecorded:
  "e \<in> set (preload h cfg pr params url c) \<Longrightarrow> is_fetch e \<Longrightarrow>
     marks_loading e \<and> (\<exists>k. fetch_key h e = Some k \<and> entries pr k = None)"
  by (auto simp: preload_def Let_def dest: preload_each_unrecorded
      split: option.splits if_splits)

lemma preload_none: "preLoaderFunc c = None \<Longrightarrow> preload h cfg pr params url c = []"
  by (simp add: preload_def)

text \<open>
  C3. With smart preload on and a predictor registered, \<^verbatim>\<open>preload\<close> does nothing at all
  (no speculative fetch, and the predictor is not called) iff the network timer has
  \<open>numberOfCalls > 3\<close> and \<open>average > smartThresholdTime\<close>; otherwise it calls the
  predictor and issues a fetch for every predicted parameter set whose merged key has
  no cache record, in the predicted order.
\<close>

theorem preload_smart_gate:
  fixes h cfg pr params url c f
  defines "metadata \<equiv> queryMetadata h cfg (entries pr (encodeAPICall h url params))"
    and "merged \<equiv> merge (state_params c) params"
    and "slow \<equiv> 3 < numberOfCalls (networkTimer pr)
                  \<and> smartThresholdTime cfg < average (networkTimer pr)"
  assumes "smartPreload cfg" and "preLoaderFunc c = Some f"
  shows "(preload h cfg pr params url c = [] \<longleftrightarrow> slow)
    \<and> (\<not> slow \<longrightarrow>
         preload h cfg pr params url c =
           Predict params merged metadata #
           map (\<lambda>p. QueryEntities (entityName cfg) url (merge (state_params c) p) True True
                       (smartPreload cfg))
             (filter (\<lambda>p. entries pr (encodeAPICall h url (merge (state_params c) p)) = None)
                (f params merged metadata)))"
  using assms(4,5) unfolding metadata_def merged_def slow_def
  by (simp add: preload_def preload_each_eq Let_def)

theorem preload_smart_gate_witness:
  "smartPreload smart_config
   \<and> preLoaderFunc (viewing users_url (page 1) (Some next_pages)) = Some next_pages
   \<and> (3 < numberOfCalls (networkTimer (bucket [] 400 4))
        \<and> smartThresholdTime smart_config < average (networkTimer (bucket [] 400 4)))
   \<and> preload users_env smart_config (bucket [] 400 4) (page 1) users_url
        (viewing users_url (page 1) (Some next_pages)) = []
   \<and> \<not> (3 < numberOfCalls (networkTimer (bucket [(''/users?page=3'', fetched_record)] 200 4))
        \<and> smartThresholdTime smart_config
            < average (networkTimer (bucket [(''/users?page=3'', fetched_record)] 200 4)))
   \<and> preload users_env smart_config (bucket [(''/users?page=3'', fetched_record)] 200 4)
        (page 1) users_url (viewing users_url (page 1) (Some next_pages)) =
      [Predict (page 1) (page 1) \<lparr>preloadedAt = None, props_rest = []\<rparr>,
       QueryEntities ''user'' users_url (page 2) True True True]"
proof -
  let ?c = "viewing users_url (page 1) (Some next_pages)"
  let ?slow = "bucket [] 400 4"
  let ?fast = "bucket [(''/users?page=3'', fetched_record)] 200 4"
  have smart: "smartPreload smart_config" by (simp add: users_defs)
  have reg: "preLoaderFunc ?c = Some next_pages" by (simp add: users_defs)
  have slow: "3 < numberOfCalls (networkTimer ?slow)
      \<and> smartThresholdTime smart_config < average (networkTimer ?slow)"
    by (simp add: users_defs)
  have fast: "\<not> (3 < numberOfCalls (networkTimer ?fast)
      \<and> smartThresholdTime smart_config < average (networkTimer ?fast))"
    by (simp add: users_defs)
  from preload_smart_gate [OF smart reg, of users_env ?slow "page 1" users_url] slow
  have 1: "preload users_env smart_config ?slow (page 1) users_url ?c = []"
    by blast
  from preload_smart_gate [OF smart reg, of users_env ?fast "page 1" users_url] fast
  have "preload users_env smart_config ?fast (page 1) users_url ?c =
      Predict (page 1) (merge (state_params ?c) (page 1))
        (queryMetadata users_env smart_config
           (entries ?fast (encodeAPICall users_env users_url (page 1)))) #
      map (\<lambda>p. QueryEntities (entityName smart_config) users_url (merge (state_params ?c) p)
                  True True (smartPreload smart_config))
        (filter (\<lambda>p. entries ?fast
                   (encodeAPICall users_env users_url (merge (state_params ?c) p)) = None)
           (next_pages (page 1) (merge (state_params ?c) (page 1))
              (queryMetadata users_env smart_config
                 (entries ?fast (encodeAPICall users_env users_url (page 1))))))"
    by blast
  also have "\<dots> = [Predict (page 1) (page 1) \<lparr>preloadedAt = None, props_rest = []\<rparr>,
       QueryEntities ''user'' users_url (page 2) True True True]"
    by (simp add: users_defs eval_defs)
  finally have 2: "preload users_env smart_config ?fast (page 1) users_url ?c =
      [Predict (page 1) (page 1) \<lparr>preloadedAt = None, props_rest = []\<rparr>,
       QueryEntities ''user'' users_url (page 2) True True True]" .
  from smart reg slow fast 1 2 show ?thesis by blast
qed

lemma query_unfold:
  fixes h cfg pr now params_arg url_arg initial c
  defines "params \<equiv> (case params_arg of None \<Rightarrow> state_params c | Some p \<Rightarrow> p)"
    and "url \<equiv> (case url_arg of None \<Rightarrow> state_url c | Some u \<Rightarrow> Some u)"
  defines "oldParams \<equiv> (if initial then copy params else copy (state_params c))"
  defines "newParams \<equiv> merge oldParams params"
  defines "c1 \<equiv> c\<lparr>state_params := newParams, state_loadingData := True\<rparr>"
    and "data \<equiv> entries pr (encodeAPICall h url newParams)"
  shows "query h cfg pr now params_arg url_arg initial c =
    (c1,
     (if data = None \<or> \<not> hideLoadIfDataFound cfg then [Freeze] else [])
       @ preload h cfg pr params url (if batched h then c else c1)
       @ (if shouldLoad cfg now data
          then [QueryEntities (entityName cfg) url newParams (data = None) False
                  (smartPreload cfg)]
          else []),
     if shouldLoad cfg now data then Fetching url newParams oldParams else Resolved)"
  unfolding params_def url_def oldParams_def newParams_def c1_def data_def
  by (simp add: query_def Let_def)

lemma shouldLoad_None: "shouldLoad cfg now None"
  by simp

text \<open>
  C5. Both the direct query path and the preload path route their fetch decision
  through the freshness check: for every predicted parameter set, preload issues a
  speculative fetch iff \<^verbatim>\<open>shouldLoad\<close> returns true for the record at that set's cache
  key. This fails on the code: a preloaded record whose validity window has expired
  makes \<^verbatim>\<open>shouldLoad\<close> true, and preload still skips its key.
\<close>

theorem preload_skips_expired_record:
  "shouldLoad (default_config ''user'') 20000
     (entries (bucket [(''/users?page=2'', preloaded_record 1000)] 0 0)
        (encodeAPICall users_env users_url
           (merge (state_params (viewing users_url (page 1) (Some next_pages))) (page 2))))
   \<and> next_pages (page 1) (page 1) \<lparr>preloadedAt = None, props_rest = []\<rparr> = [page 2, page 3]
   \<and> preload users_env (default_config ''user'')
        (bucket [(''/users?page=2'', preloaded_record 1000)] 0 0) (page 1) users_url
        (viewing users_url (page 1) (Some next_pages)) =
      [Predict (page 1) (page 1) \<lparr>preloadedAt = None, props_rest = []\<rparr>,
       QueryEntities ''user'' users_url (page 3) True True False]"
  by (simp add: users_defs eval_defs)

text \<open>
  C5, amended. The direct query path routes its fetch decision through the freshness
  check: \<^verbatim>\<open>query\<close> dispatches its fetch, and returns the pending chain, iff \<^verbatim>\<open>shouldLoad\<close>
  is true of the record at the active key. The preload path does not call it: for
  every predicted parameter set, preload issues a speculative fetch iff there is no
  record at all at that set's cache key, so any record (the sentinel, a fetched
  record, a preloaded record whether or not its window has expired) suppresses the
  speculative fetch. Every speculative fetch is for a key at which \<^verbatim>\<open>shouldLoad\<close> is
  true.
\<close>

theorem fetch_decisions:
  fixes h cfg pr now params_arg url_arg initial c f qparams qurl
  defines "params \<equiv> (case params_arg of None \<Rightarrow> state_params c | Some p \<Rightarrow> p)"
    and "url \<equiv> (case url_arg of None \<Rightarrow> state_url c | Some u \<Rightarrow> Some u)"
  defines "newParams \<equiv>
      merge (if initial then copy params else copy (state_params c)) params"
  defines "data \<equiv> entries pr (encodeAPICall h url newParams)"
    and "result \<equiv> query h cfg pr now params_arg url_arg initial c"
    and "metadata \<equiv> queryMetadata h cfg (entries pr (encodeAPICall h qurl qparams))"
    and "merged \<equiv> merge (state_params c) qparams"
  assumes "preLoaderFunc c = Some f"
    and "\<not> (smartPreload cfg \<and> 3 < numberOfCalls (networkTimer pr)
             \<and> smartThresholdTime cfg < average (networkTimer pr))"
  shows "(filter is_direct_fetch (fst (snd result)) =
            (if shouldLoad cfg now data
             then [QueryEntities (entityName cfg) url newParams (data = None) False
                     (smartPreload cfg)]
             else []))
    \<and> (snd (snd result) \<noteq> Resolved \<longleftrightarrow> shouldLoad cfg now data)
    \<and> (\<forall>p \<in> set (f qparams merged metadata).
          QueryEntities (entityName cfg) qurl (merge (state_params c) p) True True
            (smartPreload cfg) \<in> set (preload h cfg pr qparams qurl c)
          \<longleftrightarrow> entries pr (encodeAPICall h qurl (merge (state_params c) p)) = None)
    \<and> (\<forall>e \<in> set (preload h cfg pr qparams qurl c).
          is_fetch e \<longrightarrow>
          (\<exists>k. fetch_key h e = Some k \<and> entries pr k = None \<and> shouldLoad cfg now (entries pr k)))"
proof -
  have direct: "filter is_direct_fetch (fst (snd result)) =
            (if shouldLoad cfg now data
             then [QueryEntities (entityName cfg) url newParams (data = None) False
                     (smartPreload cfg)]
             else [])"
    unfolding result_def data_def newParams_def url_def params_def
    by (simp add: query_unfold preload_no_direct)
  have chain: "snd (snd result) \<noteq> Resolved \<longleftrightarrow> shouldLoad cfg now data"
    unfolding result_def data_def newParams_def url_def params_def
    by (simp add: query_unfold)
  have pre: "preload h cfg pr qparams qurl c =
      Predict qparams merged metadata #
      map (\<lambda>p. QueryEntities (entityName cfg) qurl (merge (state_params c) p) True True
                  (smartPreload cfg))
        (filter (\<lambda>p. entries pr (encodeAPICall h qurl (merge (state_params c) p)) = None)
           (f qparams merged metadata))"
    using assms(8,9) unfolding metadata_def merged_def
    by (simp add: preload_def preload_each_eq Let_def)
  have spec: "\<forall>p \<in> set (f qparams merged metadata).
          QueryEntities (entityName cfg) qurl (merge (state_params c) p) True True
            (smartPreload cfg) \<in> set (preload h cfg pr qparams qurl c)
          \<longleftrightarrow> entries pr (encodeAPICall h qurl (merge (state_params c) p)) = None"
    unfolding pre by auto
  have fresh: "\<forall>e \<in> set (preload h cfg pr qparams qurl c).
          is_fetch e \<longrightarrow>
          (\<exists>k. fetch_key h e = Some k \<and> entries pr k = None \<and> shouldLoad cfg now (entries pr k))"
    using preload_unrecorded [of _ h cfg pr qparams qurl c] by fastforce
  from direct chain spec fresh show ?thesis by blast
qed

theorem fetch_decisions_witness:
  "preLoaderFunc (viewing users_url (page 1) (Some next_pages)) = Some next_pages
   \<and> \<not> (smartPreload (default_config ''user'')
        \<and> 3 < numberOfCalls (networkTimer (bucket [(''/users?page=2'', preloaded_record 1000)] 0 0))
        \<and> smartThresholdTime (default_config ''user'')
            < average (networkTimer (bucket [(''/users?page=2'', preloaded_record 1000)] 0 0)))
   \<and> filter is_direct_fetch
        (fst (snd (query users_env (default_config ''user'')
           (bucket [(''/users?page=2'', preloaded_record 1000)] 0 0) 20000 (Some (page 2)) None False
           (viewing users_url (page 1) (Some next_pages))))) =
      [QueryEntities ''user'' users_url (page 2) False False False]
   \<and> snd (snd (query users_env (default_config ''user'')
           (bucket [(''/users?page=2'', preloaded_record 1000)] 0 0) 20000 (Some (page 2)) None False
           (viewing users_url (page 1) (Some next_pages)))) \<noteq> Resolved
   \<and> QueryEntities ''user'' users_url (page 3) True True False
        \<in> set (preload users_env (default_config ''user'')
                 (bucket [(''/users?page=2'', preloaded_record 1000)] 0 0) (page 1) users_url
                 (viewing users_url (page 1) (Some next_pages)))
   \<and> QueryEntities ''user'' users_url (page 2) True True False
        \<notin> set (preload users_env (default_config ''user'')
                 (bucket [(''/users?page=2'', preloaded_record 1000)] 0 0) (page 1) users_url
                 (viewing users_url (page 1) (Some next_pages)))"
proof -
  let ?c = "viewing users_url (page 1) (Some next_pages)"
  let ?pr = "bucket [(''/users?page=2'', preloaded_record 1000)] 0 0"
  let ?cfg = "default_config ''user''"
  have reg: "preLoaderFunc ?c = Some next_pages" by (simp add: users_defs)
  have gate: "\<not> (smartPreload ?cfg \<and> 3 < numberOfCalls (networkTimer ?pr)
      \<and> smartThresholdTime ?cfg < average (networkTimer ?pr))"
    by (simp add: users_defs)
  show ?thesis
    using reg gate
      fetch_decisions [OF reg gate, where h = users_env and now = 20000
        and params_arg = "Some (page 2)" and url_arg = None and initial = False
        and qparams = "page 1" and qurl = users_url]
    by (simp add: users_defs eval_defs)
qed

subsection \<open>Queries\<close>

lemma query_state:
  "fst (query h cfg pr now params_arg url_arg initial c) =
     c\<lparr>state_params :=
          merge (if initial
                 then copy (case params_arg of None \<Rightarrow> state_params c | Some p \<Rightarrow> p)
                 else copy (state_params c))
            (case params_arg of None \<Rightarrow> state_params c | Some p \<Rightarrow> p),
        state_loadingData := True\<rparr>"
  by (simp add: query_unfold)

lemma initialQuery_unfold:
  "initialQuery h cfg pr now url params_arg c =
     (let q = query h cfg pr now (Some (case params_arg of None \<Rightarrow> [] | Some p \<Rightarrow> p)) url True
                (if batched h then c else c\<lparr>state_url := url\<rparr>)
      in ((fst q)\<lparr>state_url := url\<rparr>, fst (snd q), snd (snd q)))"
  by (simp add: initialQuery_def Let_def split_beta)

lemma merge_copy: "wf_object a \<Longrightarrow> merge (copy a) b = merge a b"
  by (simp add: copy_wf)

lemma map_add_case:
  "(m ++ n) k = (case n k of Some v \<Rightarrow> Some v | None \<Rightarrow> m k)"
  by (simp add: map_add_def split: option.splits)

text \<open>
  C8. For a query call that is not initial, the effective parameter set is the shallow
  merge of the new params over the previously active ones: a key of the new params
  has its new value, any other key keeps the old one. For an initial query the
  supplied params become the whole parameter set. The parameter sets are objects, so
  their keys are distinct.
\<close>

theorem query_effective_params:
  assumes "wf_object (state_params c)" and "wf_object p"
  shows "state_params (fst (query h cfg pr now (Some p) url_arg False c))
           = merge (state_params c) p
    \<and> (\<forall>k. map_of (state_params (fst (query h cfg pr now (Some p) url_arg False c))) k
             = (case map_of p k of Some v \<Rightarrow> Some v | None \<Rightarrow> map_of (state_params c) k))
    \<and> state_params (fst (query h cfg pr now None url_arg False c)) = state_params c
    \<and> state_params (fst (query h cfg pr now (Some p) url_arg True c)) = p
    \<and> state_params (fst (initialQuery h cfg pr now url (Some p) c)) = p
    \<and> state_params (fst (initialQuery h cfg pr now url None c)) = []"
proof -
  have 1: "state_params (fst (query h cfg pr now (Some p) url_arg False c))
           = merge (state_params c) p"
    using assms(1) by (simp add: query_state merge_copy)
  have 2: "\<forall>k. map_of (state_params (fst (query h cfg pr now (Some p) url_arg False c))) k
             = (case map_of p k of Some v \<Rightarrow> Some v | None \<Rightarrow> map_of (state_params c) k)"
    unfolding 1 using assms by (simp add: map_of_merge map_add_case)
  have 3: "state_params (fst (query h cfg pr now None url_arg False c)) = state_params c"
    using assms(1) by (simp add: query_state merge_copy merge_self)
  have 4: "state_params (fst (query h cfg pr now (Some p) url_arg True c)) = p"
    using assms(2) by (simp add: query_state merge_copy merge_self)
  have 5: "state_params (fst (initialQuery h cfg pr now url (Some p) c)) = p"
    using assms(2) by (simp add: initialQuery_unfold query_state merge_copy merge_self)
  have 6: "state_params (fst (initialQuery h cfg pr now url None c)) = []"
    by (simp add: initialQuery_unfold query_state merge_def copy_def)
  from 1 2 3 4 5 6 show ?thesis by blast
qed

theorem query_effective_params_witness:
  "wf_object (state_params (viewing users_url [(''page'', JNum 1), (''size'', JNum 20)] None))
   \<and> wf_object [(''sort'', JStr ''name''), (''page'', JNum 2)]
   \<and> state_params (fst (query users_env (default_config ''user'') (bucket [] 0 0) 0
        (Some [(''sort'', JStr ''name''), (''page'', JNum 2)]) None False
        (viewing users_url [(''page'', JNum 1), (''size'', JNum 20)] None)))
      = [(''page'', JNum 2), (''size'', JNum 20), (''sort'', JStr ''name'')]
   \<and> state_params (fst (query users_env (default_config ''user'') (bucket [] 0 0) 0
        (Some [(''sort'', JStr ''name''), (''page'', JNum 2)]) None True
        (viewing users_url [(''page'', JNum 1), (''size'', JNum 20)] None)))
      = [(''sort'', JStr ''name''), (''page'', JNum 2)]"
proof -
  let ?c = "viewing users_url [(''page'', JNum 1), (''size'', JNum 20)] None"
  let ?p = "[(''sort'', JStr ''name''), (''page'', JNum 2)]"
  have old: "wf_object (state_params ?c)" by (simp add: wf_object_def viewing_def)
  have new: "wf_object ?p" by (simp add: wf_object_def)
  have m: "merge (state_params ?c) ?p
      = [(''page'', JNum 2), (''size'', JNum 20), (''sort'', JStr ''name'')]"
    by (simp add: merge_def viewing_def)
  from old new m
    query_effective_params [OF old new, of users_env "default_config ''user''"
      "bucket [] 0 0" 0 None]
  show ?thesis by simp
qed

subsection \<open>Mutations\<close>

text \<open>
  C7. Each of \<^verbatim>\<open>create\<close>, \<^verbatim>\<open>update\<close>, \<^verbatim>\<open>patch\<close> and \<^verbatim>\<open>delete\<close>, called while the state has no
  url (as before any \<^verbatim>\<open>initialQuery\<close>), throws the setup error at once, instead of
  returning a promise, and has made no call: nothing is frozen and nothing is
  dispatched.
\<close>

theorem mutation_before_setup:
  assumes "falsy (state_url c)"
  shows "create cfg ent c = ([], Threw (SetupError (entityName cfg)))
    \<and> update cfg ent c = ([], Threw (SetupError (entityName cfg)))
    \<and> patch cfg ent c = ([], Threw (SetupError (entityName cfg)))
    \<and> delete cfg ent c = ([], Threw (SetupError (entityName cfg)))"
  using assms by (simp add: create_def update_def patch_def delete_def checkSetup_def)

theorem mutation_before_setup_witness:
  "falsy (state_url initial_component)
   \<and> create (default_config ''user'') (EntityObject [(''name'', JStr ''Ada'')]) initial_component
       = ([], Threw (SetupError ''user''))
   \<and> delete (default_config ''user'') (EntityId ''7'') initial_component
       = ([], Threw (SetupError ''user''))"
proof -
  have unset: "falsy (state_url initial_component)" by (simp add: initial_component_def)
  have name: "entityName (default_config ''user'') = ''user''" by (simp add: default_config_def)
  from unset
    mutation_before_setup [OF unset, of "default_config ''user''"
      "EntityObject [(''name'', JStr ''Ada'')]"]
    mutation_before_setup [OF unset, of "default_config ''user''" "EntityId ''7''"]
  show ?thesis unfolding name by blast
qed

subsection \<open>Failure of a query\<close>

text \<open>
  C4. For every query call whose fetch fails, \<^verbatim>\<open>loadingData\<close> is cleared, \<^verbatim>\<open>params\<close> is
  restored to its value immediately before the call, \<^verbatim>\<open>unfreeze\<close> is invoked and the
  returned promise does not reject. This fails on the code for an initial call: the
  state held page 1, the call with \<^verbatim>\<open>initial = true\<close> asks for page 2, its fetch is
  dispatched and fails, and \<^verbatim>\<open>params\<close> is then page 2.
\<close>

theorem initial_query_failure_keeps_new_params:
  "snd (snd (query users_env (default_config ''user'') (bucket [] 0 0) 0 (Some (page 2))
       (Some ''/users'') True (viewing users_url (page 1) None)))
     = Fetching users_url (page 2) (page 2)
   \<and> state_params (viewing users_url (page 1) None) = page 1
   \<and> state_params (fst (query_settle users_env (default_config ''user'')
        (Fetching users_url (page 2) (page 2)) Rejected
        (fst (query users_env (default_config ''user'') (bucket [] 0 0) 0 (Some (page 2))
           (Some ''/users'') True (viewing users_url (page 1) None)))))
     = page 2
   \<and> page 2 \<noteq> page 1"
  by (simp add: query_unfold users_defs eval_defs query_catch_def)

text \<open>
  C4, amended. For every query call whose fetch fails, whatever the state \<open>c'\<close> has
  become when the failure arrives: \<^verbatim>\<open>loadingData\<close> is cleared, \<^verbatim>\<open>unfreeze\<close> is the one hook
  invoked, the url and the predictor are untouched, and the returned promise is
  fulfilled, not rejected. For a call that is not initial, \<^verbatim>\<open>params\<close> is restored to
  its value immediately before the call.
\<close>

theorem query_failure_recovery:
  fixes h cfg pr now params_arg url_arg initial c c'
  defines "recovered \<equiv>
    query_settle h cfg (snd (snd (query h cfg pr now params_arg url_arg initial c)))
      Rejected c'"
  assumes "snd (snd (query h cfg pr now params_arg url_arg initial c)) \<noteq> Resolved"
  shows "state_loadingData (fst recovered) = False
    \<and> fst (snd recovered) = [Unfreeze]
    \<and> snd (snd recovered) = Fulfilled
    \<and> state_url (fst recovered) = state_url c'
    \<and> preLoaderFunc (fst recovered) = preLoaderFunc c'
    \<and> (\<not> initial \<and> wf_object (state_params c)
         \<longrightarrow> state_params (fst recovered) = state_params c)"
proof -
  from assms(2) have p: "snd (snd (query h cfg pr now params_arg url_arg initial c)) =
      Fetching (case url_arg of None \<Rightarrow> state_url c | Some u \<Rightarrow> Some u)
        (merge (if initial
                then copy (case params_arg of None \<Rightarrow> state_params c | Some p \<Rightarrow> p)
                else copy (state_params c))
           (case params_arg of None \<Rightarrow> state_params c | Some p \<Rightarrow> p))
        (if initial then copy (case params_arg of None \<Rightarrow> state_params c | Some p \<Rightarrow> p)
         else copy (state_params c))"
    by (simp add: query_unfold split: if_splits)
  show ?thesis
    unfolding recovered_def p by (simp add: query_catch_def copy_wf)
qed

theorem query_failure_recovery_witness:
  "snd (snd (query users_env (default_config ''user'') (bucket [] 0 0) 0 (Some (page 2))
       None False (viewing users_url (page 1) None))) \<noteq> Resolved
   \<and> wf_object (state_params (viewing users_url (page 1) None))
   \<and> query_settle users_env (default_config ''user'')
        (snd (snd (query users_env (default_config ''user'') (bucket [] 0 0) 0
           (Some (page 2)) None False (viewing users_url (page 1) None))))
        Rejected
        (fst (query users_env (default_config ''user'') (bucket [] 0 0) 0
           (Some (page 2)) None False (viewing users_url (page 1) None)))
     = (viewing users_url (page 1) None, [Unfreeze], Fulfilled)"
proof -
  let ?c = "viewing users_url (page 1) None"
  let ?q = "query users_env (default_config ''user'') (bucket [] 0 0) 0 (Some (page 2))
       None False ?c"
  have sent: "snd (snd ?q) \<noteq> Resolved"
    by (simp add: query_unfold users_defs eval_defs)
  have wf: "wf_object (state_params ?c)"
    by (simp add: wf_object_def users_defs)
  have st: "fst ?q = \<lparr>state_url = users_url, state_params = page 2, state_loadingData = True,
      preLoaderFunc = None\<rparr>"
    by (simp add: query_unfold users_defs eval_defs)
  have "\<And>r :: component \<times> effect list \<times> settled.
      state_loadingData (fst r) = False \<Longrightarrow> fst (snd r) = [Unfreeze] \<Longrightarrow>
      snd (snd r) = Fulfilled \<Longrightarrow> state_url (fst r) = users_url \<Longrightarrow>
      preLoaderFunc (fst r) = None \<Longrightarrow> state_params (fst r) = page 1 \<Longrightarrow>
      r = (?c, [Unfreeze], Fulfilled)"
    by (auto simp: viewing_def)
  with sent wf query_failure_recovery [OF sent, where c' = "fst ?q"]
  show ?thesis unfolding st by (simp add: viewing_def)
qed

subsection \<open>The order of a mutation\<close>

text \<open>
  C6. Every mutation invokes \<^verbatim>\<open>freeze\<close>, dispatches the mutation, then re-issues
  \<^verbatim>\<open>query()\<close> with the active params, then invokes \<^verbatim>\<open>unfreeze\<close>. This fails on the code:
  the handler invokes \<^verbatim>\<open>unfreeze\<close> first and re-issues the query after it.
\<close>

theorem mutation_unfreezes_before_query:
  "fst (snd (mutation_then users_env (default_config ''user'')
       (bucket [(''/users?page=1'', fetched_record)] 0 0) 0 (viewing users_url (page 1) None)))
     = [Unfreeze, QueryEntities ''user'' users_url (page 1) False False False]
   \<and> fst (snd (mutation_then_spec users_env (default_config ''user'')
       (bucket [(''/users?page=1'', fetched_record)] 0 0) 0 (viewing users_url (page 1) None)))
     = [QueryEntities ''user'' users_url (page 1) False False False, Unfreeze]
   \<and> mutation_then users_env (default_config ''user'')
       (bucket [(''/users?page=1'', fetched_record)] 0 0) 0 (viewing users_url (page 1) None)
     \<noteq> mutation_then_spec users_env (default_config ''user'')
       (bucket [(''/users?page=1'', fetched_record)] 0 0) 0 (viewing users_url (page 1) None)"
  by (simp add: mutation_then_def mutation_then_spec_def query_unfold users_defs eval_defs)

text \<open>
  C6, amended. Every mutation, once the url is set, invokes \<^verbatim>\<open>freeze\<close> and then
  dispatches the mutation to the store (\<^verbatim>\<open>delete\<close> with an id string turned into an
  object). When the store's promise is fulfilled the handler invokes \<^verbatim>\<open>unfreeze\<close> and
  then re-issues \<^verbatim>\<open>query()\<close> with the active url and params, whose own calls follow;
  the promise of the mutation is fulfilled. When the store's promise is rejected the
  rejection passes to the caller, no call is made, so \<^verbatim>\<open>unfreeze\<close> is not invoked, and
  the state is unchanged.
\<close>

theorem mutation_order:
  fixes h cfg pr now c ent
  defines "requery \<equiv> query h cfg pr now None None False c"
    and "data \<equiv> entries pr (encodeAPICall h (state_url c) (state_params c))"
  assumes "\<not> falsy (state_url c)" and "wf_object (state_params c)"
  shows "create cfg ent c = ([Freeze, CreateEntity (entityName cfg) ent (state_url c)], Dispatched)
    \<and> update cfg ent c =
        ([Freeze, UpdateEntity (entityName cfg) ent (state_url c) (resultField cfg)], Dispatched)
    \<and> patch cfg ent c =
        ([Freeze, PatchEntity (entityName cfg) ent (state_url c) (resultField cfg)], Dispatched)
    \<and> delete cfg (EntityObject obj) c =
        ([Freeze, DeleteEntity (entityName cfg) (EntityObject obj) (state_url c) (resultField cfg)],
         Dispatched)
    \<and> delete cfg (EntityId s) c =
        ([Freeze, DeleteEntity (entityName cfg) (EntityObject [(''id'', JStr s)]) (state_url c)
            (resultField cfg)],
         Dispatched)
    \<and> mutation_settle h cfg pr now Fulfilled c =
        (fst requery, Unfreeze # fst (snd requery), Fulfilled)
    \<and> state_params (fst requery) = state_params c
    \<and> filter is_direct_fetch (fst (snd requery)) =
        (if shouldLoad cfg now data
         then [QueryEntities (entityName cfg) (state_url c) (state_params c) (data = None) False
                 (smartPreload cfg)]
         else [])
    \<and> mutation_settle h cfg pr now Rejected c = (c, [], Rejected)"
proof -
  have same: "merge (copy (state_params c)) (state_params c) = state_params c"
    using assms(4) by (simp add: merge_copy merge_self)
  have 1: "mutation_settle h cfg pr now Fulfilled c =
        (fst requery, Unfreeze # fst (snd requery), Fulfilled)"
    by (simp add: mutation_then_def requery_def split: prod.splits)
  have 2: "state_params (fst requery) = state_params c"
    unfolding requery_def by (simp add: query_state same)
  have 3: "filter is_direct_fetch (fst (snd requery)) =
        (if shouldLoad cfg now data
         then [QueryEntities (entityName cfg) (state_url c) (state_params c) (data = None) False
                 (smartPreload cfg)]
         else [])"
    unfolding requery_def data_def by (simp add: query_unfold same preload_no_direct)
  from assms(3) 1 2 3 show ?thesis
    by (simp add: create_def update_def patch_def delete_def checkSetup_def)
qed

theorem mutation_order_witness:
  "\<not> falsy (state_url (viewing users_url (page 1) None))
   \<and> wf_object (state_params (viewing users_url (page 1) None))
   \<and> delete (default_config ''user'') (EntityId ''7'') (viewing users_url (page 1) None) =
       ([Freeze, DeleteEntity ''user'' (EntityObject [(''id'', JStr ''7'')]) users_url
           (Some ''content'')], Dispatched)
   \<and> mutation_settle users_env (default_config ''user'')
       (bucket [(''/users?page=1'', fetched_record)] 0 0) 0 Fulfilled
       (viewing users_url (page 1) None) =
       (\<lparr>state_url = users_url, state_params = page 1, state_loadingData = True,
          preLoaderFunc = None\<rparr>,
        [Unfreeze, QueryEntities ''user'' users_url (page 1) False False False], Fulfilled)
   \<and> mutation_settle users_env (default_config ''user'')
       (bucket [(''/users?page=1'', fetched_record)] 0 0) 0 Rejected
       (viewing users_url (page 1) None) = (viewing users_url (page 1) None, [], Rejected)"
proof -
  let ?c = "viewing users_url (page 1) None"
  have url: "\<not> falsy (state_url ?c)" by (simp add: users_defs)
  have wf: "wf_object (state_params ?c)" by (simp add: wf_object_def users_defs)
  have q: "query users_env (default_config ''user'')
       (bucket [(''/users?page=1'', fetched_record)] 0 0) 0 None None False ?c =
     (\<lparr>state_url = users_url, state_params = page 1, state_loadingData = True,
          preLoaderFunc = None\<rparr>,
      [QueryEntities ''user'' users_url (page 1) False False False],
      Fetching users_url (page 1) (page 1))"
    by (simp add: query_unfold users_defs eval_defs)
  have cfg: "entityName (default_config ''user'') = ''user''"
    "resultField (default_config ''user'') = Some ''content''"
    "state_url ?c = users_url"
    by (simp_all add: users_defs)
  from url wf
    mutation_order [OF url wf, where cfg = "default_config ''user''" and s = "''7''"
      and h = users_env and pr = "bucket [(''/users?page=1'', fetched_record)] 0 0"
      and now = 0]
  show ?thesis unfolding q cfg by simp
qed

subsection \<open>The sentinel in the store\<close>


lemma direct_fetch_is_fetch: "is_direct_fetch e \<Longrightarrow> is_fetch e"
  by (cases e) simp_all

lemma preload_no_direct_member:
  "e \<in> set (preload h cfg pr params url c) \<Longrightarrow> \<not> is_direct_fetch e"
  using preload_no_direct [of h cfg pr params url c] by (simp add: filter_empty_conv)




lemma store_after_snoc:
  "store_after h pr (evs @ [e]) = dispatched h (store_after h pr evs) e"
  by (simp add: store_after_def)

lemma query_speculative_unrecorded:
  assumes "e \<in> set (fst (snd (query h cfg pr now params_arg url_arg initial c)))"
    and "is_fetch e" and "\<not> is_direct_fetch e"
  shows "marks_loading e \<and> (\<exists>k. fetch_key h e = Some k \<and> entries pr k = None)"
  using assms
  by (auto simp: query_unfold dest: preload_unrecorded split: if_splits)

lemma query_loading:
  fixes h cfg pr now params_arg url_arg initial c
  defines "params \<equiv> (case params_arg of None \<Rightarrow> state_params c | Some p \<Rightarrow> p)"
    and "url \<equiv> (case url_arg of None \<Rightarrow> state_url c | Some u \<Rightarrow> Some u)"
  defines "newParams \<equiv>
      merge (if initial then copy params else copy (state_params c)) params"
  defines "key \<equiv> encodeAPICall h url newParams"
    and "result \<equiv> query h cfg pr now params_arg url_arg initial c"
  assumes loading: "entries pr key = Some LOADING"
  shows "snd (snd result) = Resolved"
    and "\<forall>e \<in> set (fst (snd result)). \<not> is_direct_fetch e \<and> fetch_key h e \<noteq> Some key"
    and "preLoaderFunc c = None \<Longrightarrow> \<forall>e \<in> set (fst (snd result)). \<not> is_fetch e"
proof -
  let ?c1 = "c\<lparr>state_params := newParams, state_loadingData := True\<rparr>"
  let ?read = "if batched h then c else ?c1"
  have res: "result =
      (?c1, (if \<not> hideLoadIfDataFound cfg then [Freeze] else []) @ preload h cfg pr params url ?read,
       Resolved)"
    using loading
    unfolding result_def key_def newParams_def url_def params_def
    by (simp add: query_unfold)
  show "snd (snd result) = Resolved" by (simp add: res)
  show "\<forall>e \<in> set (fst (snd result)). \<not> is_direct_fetch e \<and> fetch_key h e \<noteq> Some key"
  proof
    fix e assume "e \<in> set (fst (snd result))"
    then consider "e = Freeze" | "e \<in> set (preload h cfg pr params url ?read)"
      by (auto simp: res split: if_splits)
    then show "\<not> is_direct_fetch e \<and> fetch_key h e \<noteq> Some key"
    proof cases
      case 1
      then show ?thesis by simp
    next
      case 2
      show ?thesis
      proof (cases "is_fetch e")
        case True
        from preload_unrecorded [OF 2 True] loading preload_no_direct_member [OF 2]
        show ?thesis by auto
      next
        case False
        then show ?thesis by (cases e) simp_all
      qed
    qed
  qed
  show "\<forall>e \<in> set (fst (snd result)). \<not> is_fetch e" if "preLoaderFunc c = None"
  proof -
    from that have "preLoaderFunc ?read = None" by simp
    then show ?thesis by (simp add: res preload_none)
  qed
qed

text \<open>
  C2. On a key that holds the \<^verbatim>\<open>LOADING\<close> sentinel a query call dispatches no fetch and
  does not invoke \<^verbatim>\<open>queryEntities\<close>; an \<^verbatim>\<open>initialQuery\<close> with no cached data dispatches
  exactly one fetch with \<^verbatim>\<open>markLoading = true\<close>. This fails on the code when a predictor
  is registered: the \<^verbatim>\<open>initialQuery\<close> for page 1 on an empty cache dispatches three
  fetches with \<^verbatim>\<open>markLoading = true\<close>, two of them speculative, and the query for page 1
  while its key holds the sentinel still invokes \<^verbatim>\<open>queryEntities\<close> twice, for the
  predicted pages.
\<close>

theorem predictor_adds_fetches:
  "filter marks_loading
     (fst (snd (initialQuery users_env (default_config ''user'') (bucket [] 0 0) 0 users_url
        (Some (page 1)) (viewing None [] (Some next_pages)))))
     = [QueryEntities ''user'' users_url (page 2) True True False,
        QueryEntities ''user'' users_url (page 3) True True False,
        QueryEntities ''user'' users_url (page 1) True False False]
   \<and> entries (bucket [(''/users?page=1'', LOADING)] 0 0)
        (encodeAPICall users_env users_url (page 1)) = Some LOADING
   \<and> filter is_fetch
        (fst (snd (query users_env (default_config ''user'')
           (bucket [(''/users?page=1'', LOADING)] 0 0) 0 (Some (page 1)) None False
           (viewing users_url (page 1) (Some next_pages)))))
     = [QueryEntities ''user'' users_url (page 2) True True False,
        QueryEntities ''user'' users_url (page 3) True True False]"
  by (simp add: initialQuery_unfold query_unfold users_defs eval_defs)

text \<open>
  C2, amended. For every key whose cache record, in the props the call reads, is the
  \<^verbatim>\<open>LOADING\<close> sentinel, a query call for that key returns \<^verbatim>\<open>Promise.resolve()\<close>, makes no
  direct fetch and no fetch for that key; the only fetches it can make are the
  speculative ones of a registered predictor, each for a predicted key that has no
  record (none at all when no predictor is registered). Consequently an
  \<^verbatim>\<open>initialQuery\<close> with a url, whose key has no record, dispatches exactly one direct
  fetch, with \<^verbatim>\<open>markLoading = true\<close>; any other fetch of the call is a speculative one
  for a key that has no record, and there is none when no predictor is registered;
  the dispatch puts the sentinel at the key. A query for the same params made before
  the first settles, once the component reads the state the first call set and the
  props its dispatches left, finds the sentinel: it returns \<^verbatim>\<open>Promise.resolve()\<close> and
  makes no direct fetch and no fetch for that key.
\<close>

theorem loading_key_not_refetched:
  fixes h cfg pr now params_arg url_arg initial c v p store start comp later
  defines "params \<equiv> (case params_arg of None \<Rightarrow> state_params c | Some q \<Rightarrow> q)"
    and "url \<equiv> (case url_arg of None \<Rightarrow> state_url c | Some w \<Rightarrow> Some w)"
  defines "newParams \<equiv>
      merge (if initial then copy params else copy (state_params c)) params"
  defines "key \<equiv> encodeAPICall h url newParams"
    and "result \<equiv> query h cfg pr now params_arg url_arg initial c"
    and "first \<equiv> initialQuery h cfg store start (Some v) (Some p) comp"
  defines "second \<equiv>
      query h cfg (store_after h store (fst (snd first))) later (Some p) None False (fst first)"
  shows "(entries pr key = Some LOADING \<longrightarrow>
            snd (snd result) = Resolved
          \<and> (\<forall>e \<in> set (fst (snd result)). \<not> is_direct_fetch e \<and> fetch_key h e \<noteq> Some key)
          \<and> (\<forall>e \<in> set (fst (snd result)).
                is_fetch e \<longrightarrow> (\<exists>k. fetch_key h e = Some k \<and> entries pr k = None))
          \<and> (preLoaderFunc c = None \<longrightarrow> (\<forall>e \<in> set (fst (snd result)). \<not> is_fetch e)))
    \<and> (wf_object p \<and> entries store (encodeAPICall h (Some v) p) = None \<longrightarrow>
            filter is_direct_fetch (fst (snd first)) =
              [QueryEntities (entityName cfg) (Some v) p True False (smartPreload cfg)]
          \<and> (\<forall>e \<in> set (fst (snd first)).
                is_fetch e \<and> \<not> is_direct_fetch e \<longrightarrow>
                (\<exists>k. fetch_key h e = Some k \<and> entries store k = None))
          \<and> (preLoaderFunc comp = None \<longrightarrow>
               filter is_fetch (fst (snd first)) =
                 [QueryEntities (entityName cfg) (Some v) p True False (smartPreload cfg)])
          \<and> entries (store_after h store (fst (snd first))) (encodeAPICall h (Some v) p)
              = Some LOADING
          \<and> snd (snd second) = Resolved
          \<and> (\<forall>e \<in> set (fst (snd second)).
                \<not> is_direct_fetch e \<and> fetch_key h e \<noteq> Some (encodeAPICall h (Some v) p))
          \<and> (preLoaderFunc comp = None \<longrightarrow> (\<forall>e \<in> set (fst (snd second)). \<not> is_fetch e)))"
proof -
  have general: "snd (snd result) = Resolved
          \<and> (\<forall>e \<in> set (fst (snd result)). \<not> is_direct_fetch e \<and> fetch_key h e \<noteq> Some key)
          \<and> (\<forall>e \<in> set (fst (snd result)).
                is_fetch e \<longrightarrow> (\<exists>k. fetch_key h e = Some k \<and> entries pr k = None))
          \<and> (preLoaderFunc c = None \<longrightarrow> (\<forall>e \<in> set (fst (snd result)). \<not> is_fetch e))"
    if loading: "entries pr key = Some LOADING"
  proof -
    note facts = query_loading [where pr = pr and h = h and url_arg = url_arg and c = c
        and initial = initial and params_arg = params_arg and cfg = cfg and now = now,
        folded params_def url_def, folded newParams_def, folded key_def result_def]
    have spec: "\<exists>k. fetch_key h e = Some k \<and> entries pr k = None"
      if "e \<in> set (fst (snd result))" and "is_fetch e" for e
    proof -
      from facts(2) [OF loading] that(1) have "\<not> is_direct_fetch e" by blast
      with that show ?thesis
        unfolding result_def using query_speculative_unrecorded by blast
    qed
    from facts(1) [OF loading] facts(2) [OF loading] facts(3) [OF loading] spec
    show ?thesis by blast
  qed
  have scenario: "filter is_direct_fetch (fst (snd first)) =
              [QueryEntities (entityName cfg) (Some v) p True False (smartPreload cfg)]
          \<and> (\<forall>e \<in> set (fst (snd first)).
                is_fetch e \<and> \<not> is_direct_fetch e \<longrightarrow>
                (\<exists>k. fetch_key h e = Some k \<and> entries store k = None))
          \<and> (preLoaderFunc comp = None \<longrightarrow>
               filter is_fetch (fst (snd first)) =
                 [QueryEntities (entityName cfg) (Some v) p True False (smartPreload cfg)])
          \<and> entries (store_after h store (fst (snd first))) (encodeAPICall h (Some v) p)
              = Some LOADING
          \<and> snd (snd second) = Resolved
          \<and> (\<forall>e \<in> set (fst (snd second)).
                \<not> is_direct_fetch e \<and> fetch_key h e \<noteq> Some (encodeAPICall h (Some v) p))
          \<and> (preLoaderFunc comp = None \<longrightarrow> (\<forall>e \<in> set (fst (snd second)). \<not> is_fetch e))"
    if wf: "wf_object p" and unrecorded: "entries store (encodeAPICall h (Some v) p) = None"
  proof -
    let ?u = "Some v :: string option"
    let ?read = "if batched h then comp else comp\<lparr>state_url := ?u\<rparr>"
    let ?q = "query h cfg store start (Some p) ?u True ?read"
    let ?r1 = "?read\<lparr>state_params := p, state_loadingData := True\<rparr>"
    let ?fetch = "QueryEntities (entityName cfg) ?u p True False (smartPreload cfg)"
    have same: "merge (copy p) p = p" using wf by (simp add: merge_copy merge_self)
    have q: "?q = (?r1,
        ([Freeze] @ preload h cfg store p ?u (if batched h then ?read else ?r1)) @ [?fetch],
        Fetching ?u p (copy p))"
      using unrecorded by (simp add: query_unfold same)
    have evs: "fst (snd first) = fst (snd ?q)"
      and st: "fst first = (fst ?q)\<lparr>state_url := ?u\<rparr>"
      unfolding first_def by (simp_all add: initialQuery_unfold Let_def)
    have 1: "filter is_direct_fetch (fst (snd first)) = [?fetch]"
      unfolding evs q by (simp add: preload_no_direct)
    have spec: "\<exists>k. fetch_key h e = Some k \<and> entries store k = None"
      if "e \<in> set (fst (snd first))" and "is_fetch e \<and> \<not> is_direct_fetch e" for e
      using that unfolding evs using query_speculative_unrecorded by blast
    have 2: "filter is_fetch (fst (snd first)) = [?fetch]" if "preLoaderFunc comp = None"
    proof -
      from that have "preLoaderFunc (if batched h then ?read else ?r1) = None" by simp
      then show ?thesis unfolding evs q by (simp add: preload_none)
    qed
    have 3: "entries (store_after h store (fst (snd first))) (encodeAPICall h ?u p) = Some LOADING"
      unfolding evs q fst_conv snd_conv store_after_snoc by simp
    have url1: "state_url (fst first) = ?u" and params1: "state_params (fst first) = p"
      and pre: "preLoaderFunc (fst first) = preLoaderFunc comp"
      unfolding st q by simp_all
    have key2: "encodeAPICall h (case None of None \<Rightarrow> state_url (fst first) | Some w \<Rightarrow> Some w)
        (merge (if False then copy (case Some p of None \<Rightarrow> state_params (fst first) | Some q \<Rightarrow> q)
                else copy (state_params (fst first)))
           (case Some p of None \<Rightarrow> state_params (fst first) | Some q \<Rightarrow> q))
        = encodeAPICall h ?u p"
      by (simp add: url1 params1 same)
    have loading: "entries (store_after h store (fst (snd first)))
        (encodeAPICall h (case None of None \<Rightarrow> state_url (fst first) | Some w \<Rightarrow> Some w)
        (merge (if False then copy (case Some p of None \<Rightarrow> state_params (fst first) | Some q \<Rightarrow> q)
                else copy (state_params (fst first)))
           (case Some p of None \<Rightarrow> state_params (fst first) | Some q \<Rightarrow> q))) = Some LOADING"
      unfolding key2 by (rule 3)
    note again = query_loading [OF loading, where cfg = cfg and now = later,
      folded second_def, unfolded key2 pre]
    from 1 2 3 spec again show ?thesis by blast
  qed
  from general scenario show ?thesis by blast
qed

theorem loading_key_not_refetched_witness:
  "entries (bucket [(''/users?page=1'', LOADING)] 0 0)
       (encodeAPICall users_env users_url (page 1)) = Some LOADING
   \<and> snd (snd (query users_env (default_config ''user'')
        (bucket [(''/users?page=1'', LOADING)] 0 0) 0 (Some (page 1)) None False
        (viewing users_url (page 1) None))) = Resolved
   \<and> filter is_fetch (fst (snd (query users_env (default_config ''user'')
        (bucket [(''/users?page=1'', LOADING)] 0 0) 0 (Some (page 1)) None False
        (viewing users_url (page 1) None)))) = []
   \<and> wf_object (page 1)
   \<and> entries (bucket [] 0 0) (encodeAPICall users_env (Some ''/users'') (page 1)) = None
   \<and> preLoaderFunc initial_component = None
   \<and> filter is_fetch (fst (snd (initialQuery users_env (default_config ''user'')
        (bucket [] 0 0) 0 (Some ''/users'') (Some (page 1)) initial_component))) =
      [QueryEntities ''user'' (Some ''/users'') (page 1) True False False]
   \<and> snd (snd (query users_env (default_config ''user'')
        (store_after users_env (bucket [] 0 0)
           (fst (snd (initialQuery users_env (default_config ''user'')
              (bucket [] 0 0) 0 (Some ''/users'') (Some (page 1)) initial_component))))
        5 (Some (page 1)) None False
        (fst (initialQuery users_env (default_config ''user'')
           (bucket [] 0 0) 0 (Some ''/users'') (Some (page 1)) initial_component)))) = Resolved
   \<and> filter is_fetch (fst (snd (query users_env (default_config ''user'')
        (store_after users_env (bucket [] 0 0)
           (fst (snd (initialQuery users_env (default_config ''user'')
              (bucket [] 0 0) 0 (Some ''/users'') (Some (page 1)) initial_component))))
        5 (Some (page 1)) None False
        (fst (initialQuery users_env (default_config ''user'')
           (bucket [] 0 0) 0 (Some ''/users'') (Some (page 1)) initial_component))))) = []"
proof -
  let ?cfg = "default_config ''user''"
  let ?busy = "bucket [(''/users?page=1'', LOADING)] 0 0"
  let ?c = "viewing users_url (page 1) None"
  let ?first = "initialQuery users_env ?cfg (bucket [] 0 0) 0 (Some ''/users'') (Some (page 1))
      initial_component"
  let ?second = "query users_env ?cfg
      (store_after users_env (bucket [] 0 0) (fst (snd ?first))) 5 (Some (page 1)) None
      False (fst ?first)"
  have busy: "entries ?busy (encodeAPICall users_env users_url (page 1)) = Some LOADING"
    by (simp add: users_defs eval_defs)
  have key: "encodeAPICall users_env
      (case None of None \<Rightarrow> state_url ?c | Some w \<Rightarrow> Some w)
      (merge (if False then copy (case Some (page 1) of None \<Rightarrow> state_params ?c | Some q \<Rightarrow> q)
              else copy (state_params ?c))
         (case Some (page 1) of None \<Rightarrow> state_params ?c | Some q \<Rightarrow> q))
      = encodeAPICall users_env users_url (page 1)"
    by (simp add: users_defs eval_defs)
  have wf: "wf_object (page 1)" by (simp add: wf_object_def page_def)
  have empty: "entries (bucket [] 0 0) (encodeAPICall users_env (Some ''/users'') (page 1)) = None"
    by (simp add: users_defs)
  have none: "preLoaderFunc initial_component = None" "preLoaderFunc ?c = None"
    by (simp_all add: initial_component_def viewing_def)
  have name: "entityName ?cfg = ''user''" "smartPreload ?cfg = False"
    by (simp_all add: default_config_def)
  note inst = loading_key_not_refetched [where h = users_env and cfg = ?cfg
      and pr = ?busy and now = 0 and params_arg = "Some (page 1)" and url_arg = None
      and initial = False and c = ?c and v = "''/users''" and p = "page 1"
      and store = "bucket [] 0 0" and start = 0 and comp = initial_component and later = 5,
      unfolded key name]
  have no_fetch: "filter is_fetch evs = []" if "\<forall>e \<in> set evs. \<not> is_fetch e" for evs
    using that by (simp add: filter_empty_conv)
  from inst busy none have 1: "snd (snd (query users_env ?cfg ?busy 0 (Some (page 1)) None
      False ?c)) = Resolved"
    and 2: "\<forall>e \<in> set (fst (snd (query users_env ?cfg ?busy 0 (Some (page 1)) None
      False ?c))). \<not> is_fetch e"
    by blast+
  from inst wf empty none have 3: "filter is_fetch (fst (snd ?first)) =
      [QueryEntities ''user'' (Some ''/users'') (page 1) True False False]"
    and 4: "snd (snd ?second) = Resolved"
    and 5: "\<forall>e \<in> set (fst (snd ?second)). \<not> is_fetch e"
    by blast+
  from busy wf empty none(1) 1 no_fetch [OF 2] 3 4 no_fetch [OF 5] show ?thesis
    by blast
qed



subsection \<open>The key encoder\<close>

lemma sorted_keys_unique:
  assumes "wf_object P1" and "wf_object P2" and "set P1 = set P2"
  shows "sort (map fst P1) = sort (map fst P2)"
proof (rule sorted_distinct_set_unique)
  show "sorted (sort (map fst P1))" "sorted (sort (map fst P2))" by simp_all
  from assms(1,2) show "distinct (sort (map fst P1))" "distinct (sort (map fst P2))"
    by (simp_all add: wf_object_def)
  from assms(3) show "set (sort (map fst P1)) = set (sort (map fst P2))" by simp
qed

lemma same_lookup:
  assumes "wf_object P1" and "wf_object P2" and "set P1 = set P2"
  shows "map_of P1 = map_of P2"
  using assms by (simp add: wf_object_def map_of_inject_set)

text \<open>
  C9. The key encoder does not depend on the insertion order of the parameters: for
  every url and every two parameter objects \<open>P1\<close> and \<open>P2\<close> with the same key/value
  pairs, in whatever order, \<open>encode url P1 = encode url P2\<close>. The encoder is the one
  modelled from the specification.
\<close>

theorem encode_order_insensitive:
  assumes "wf_object P1" and "wf_object P2" and "set P1 = set P2"
  shows "encode url P1 = encode url P2"
proof -
  have "show_pair P1 = show_pair P2"
    by (simp add: fun_eq_iff show_pair_def same_lookup [OF assms])
  with sorted_keys_unique [OF assms] show ?thesis by (simp add: encode_def)
qed

theorem encode_order_insensitive_witness:
  "wf_object [(''size'', JNum 20), (''page'', JNum 1)]
   \<and> wf_object [(''page'', JNum 1), (''size'', JNum 20)]
   \<and> set [(''size'', JNum 20), (''page'', JNum 1)] = set [(''page'', JNum 1), (''size'', JNum 20)]
   \<and> encode users_url [(''size'', JNum 20), (''page'', JNum 1)]
       = encode users_url [(''page'', JNum 1), (''size'', JNum 20)]
   \<and> encode users_url [(''page'', JNum 1), (''size'', JNum 20)] = ''/users?page=1&size=20''"
proof -
  let ?P1 = "[(''size'', JNum 20), (''page'', JNum 1)]"
  let ?P2 = "[(''page'', JNum 1), (''size'', JNum 20)]"
  have wf1: "wf_object ?P1" and wf2: "wf_object ?P2"
    by (simp_all add: wf_object_def)
  have same: "set ?P1 = set ?P2" by auto
  have val: "encode users_url ?P2 = ''/users?page=1&size=20''" by code_simp
  from wf1 wf2 same val encode_order_insensitive [OF wf1 wf2 same, of users_url]
  show ?thesis by blast
qed

end
